theory Spec2Isabelle
  imports Complex_Main
begin

section \<open>The upload component (frontend/src/components/UploadArea.tsx)\<close>

subsection \<open>Data\<close>

text \<open>
  The \<open>status\<close> field of the interface \<open>UploadStatus\<close> is one of five string literals.
\<close>

datatype Status = idle | uploading | assembling | completed | error

record UploadStatus =
  progress :: nat
  status :: Status
  message :: "string option"

text \<open>
  Of a browser \<open>File\<close> the component reads \<open>name\<close> and \<open>size\<close>. \<open>file.slice(start, end)\<close>
  is the byte range \<open>[start, end)\<close> of the file; every call of the component has
  \<open>start \<le> end \<le> size\<close>, so the range is never clamped.
\<close>

record File =
  name :: string
  size_bytes :: nat

text \<open>
  The fields of the multipart form of one chunk. \<open>chunk_index\<close> and \<open>total_chunks\<close> are
  sent as \<open>String(i)\<close> and \<open>String(totalChunks)\<close>; \<open>client_id\<close> is appended on the first
  chunk only.
\<close>

record ChunkForm =
  file_chunk :: "nat \<times> nat"
  document_id :: string
  chunk_index :: string
  total_chunks :: string
  filename :: string
  client_id :: "string option"

datatype Request =
    PostUpload File string
  | PostUploadChunked ChunkForm

text \<open>
  What \<open>await axios.post\<close> gives back: a response, of which the component reads one
  optional string (\<open>res.data.id\<close>, \<open>res.data.document_id\<close>), or a rejection, of which
  it reads \<open>err?.response?.data?.detail\<close>. The body of a response is an object, as the
  endpoints declare it, so reading a field of it does not throw.
\<close>

datatype Response = Resolved "string option" | Rejected "string option"

text \<open>
  The data of a WebSocket message after \<open>JSON.parse\<close>; a message that does not parse
  (or that parses to something whose fields cannot be read) is \<open>None\<close> below.
\<close>

record WsData =
  event :: "string option"
  ws_filename :: "string option"
  ws_document_id :: "string option"

text \<open>
  The component's React state (the socket handle \<open>ws\<close> is only stored, never read),
  with the toasts shown so far.
\<close>

record State =
  clientId :: string
  processingMsg :: "string option"
  the_file :: "File option"
  the_status :: UploadStatus
  uploadedDocId :: "string option"
  toasts :: "string list"

text \<open>
  \<open>handleUpload\<close> is an asynchronous function: between its effects the state may be
  rendered and other handlers may run. Its model is the sequence of effects it performs.
\<close>

datatype Effect =
    SetStatus UploadStatus
  | Post Request
  | SetUploadedDocId "string option"

subsection \<open>JavaScript operators\<close>

text \<open>\<open>x || d\<close> on an optional string: \<open>undefined\<close> and the empty string are falsy.\<close>

definition or_else :: "string option \<Rightarrow> string \<Rightarrow> string" where
  "or_else x d = (case x of None \<Rightarrow> d | Some s \<Rightarrow> if s = [] then d else s)"

text \<open>An optional string inside a template literal.\<close>

definition template :: "string option \<Rightarrow> string" where
  "template x = (case x of None \<Rightarrow> ''undefined'' | Some s \<Rightarrow> s)"

text \<open>\<open>String(n)\<close> of a natural number: its decimal digits.\<close>

fun js_String :: "nat \<Rightarrow> string" where
  "js_String n =
     (if n < 10 then [char_of (48 + n)]
      else js_String (n div 10) @ [char_of (48 + n mod 10)])"

declare js_String.simps [simp del]

text \<open>
  \<open>Math.ceil(size / c)\<close>. The quotient of two integers below \<open>2^53\<close> is rounded to a
  double that lies on the same side of every integer, so the ceiling is the exact one.
\<close>

definition ceil_div :: "nat \<Rightarrow> nat \<Rightarrow> nat" where
  "ceil_div sz c = (if sz mod c = 0 then sz div c else sz div c + 1)"

text \<open>
  \<open>Math.round((k / n) * 100)\<close>: the nearest integer, a half rounded up, taken here
  of the exact quotient. The double product can fall on the other side of a half: for
  \<open>k = 23\<close> and \<open>n = 40\<close> it is 57.49\<dots> and the code shows 57, where the exact value
  57.5 gives 58 here. The values used below are those of \<open>n = 3\<close>, where the double
  product is 33.33\<dots>, 66.66\<dots> and 100 and rounds to the same integers, and that of
  \<open>k = n\<close>, where the quotient is exactly 1; no other theorem depends on a progress value.
\<close>

definition round_percent :: "nat \<Rightarrow> nat \<Rightarrow> nat" where
  "round_percent k n = (200 * k + n) div (2 * n)"

subsection \<open>The handlers\<close>

definition CHUNK_SIZE :: nat where
  "CHUNK_SIZE = 5 * 1024 * 1024"

text \<open>The byte range of chunk \<open>i\<close> (lines 78 and 79).\<close>

definition chunk_range :: "nat \<Rightarrow> nat \<Rightarrow> nat \<Rightarrow> nat \<times> nat" where
  "chunk_range chunkSize totalSize i =
     (let start = i * chunkSize;
          end' = min (start + chunkSize) totalSize
      in (start, end'))"

text \<open>The ranges the loop of \<open>handleUpload\<close> slices, in the order of the loop.\<close>

definition split :: "nat \<Rightarrow> nat \<Rightarrow> (nat \<times> nat) list" where
  "split totalSize chunkSize =
     map (chunk_range chunkSize totalSize) [0 ..< ceil_div totalSize chunkSize]"

text \<open>The form of chunk \<open>i\<close> (lines 81 to 88).\<close>

definition chunkForm :: "File \<Rightarrow> string \<Rightarrow> nat \<Rightarrow> nat \<Rightarrow> nat \<Rightarrow> string \<Rightarrow> ChunkForm" where
  "chunkForm f cid chunkSize totalChunks i documentId =
     \<lparr> file_chunk = chunk_range chunkSize (size_bytes f) i,
       document_id = or_else (Some documentId) ''new'',
       chunk_index = js_String i,
       total_chunks = js_String totalChunks,
       filename = name f,
       client_id = (if i = 0 then Some cid else None) \<rparr>"

text \<open>
  The loop of \<open>handleUpload\<close> from index \<open>i\<close> with the local \<open>documentId\<close>: the effects
  it performs and the value of \<open>documentId\<close> when it is left. \<open>server i\<close> is the outcome
  of the request for chunk \<open>i\<close>. A rejection leaves the loop (\<open>break\<close>).
\<close>

function upload_chunks ::
  "(nat \<Rightarrow> Response) \<Rightarrow> File \<Rightarrow> string \<Rightarrow> nat \<Rightarrow> nat \<Rightarrow> nat \<Rightarrow> string \<Rightarrow> Effect list \<times> string"
where
  "upload_chunks server f cid chunkSize totalChunks i documentId =
     (if i < totalChunks then
        (case server i of
           Resolved rid \<Rightarrow>
             (let rest = upload_chunks server f cid chunkSize totalChunks (i + 1)
                           (or_else rid documentId)
              in (Post (PostUploadChunked (chunkForm f cid chunkSize totalChunks i documentId))
                  # SetStatus \<lparr> progress = round_percent (i + 1) totalChunks,
                                status = uploading,
                                message = Some (''Chunk '' @ js_String (i + 1) @ '' uploaded'') \<rparr>
                  # (if i = totalChunks - 1
                     then [SetStatus \<lparr> progress = 100, status = assembling,
                                       message = Some ''Assembling and processing...'' \<rparr>]
                     else [])
                  @ fst rest,
                  snd rest))
         | Rejected detail \<Rightarrow>
             ([Post (PostUploadChunked (chunkForm f cid chunkSize totalChunks i documentId)),
               SetStatus \<lparr> progress = round_percent (i + 1) totalChunks,
                           status = error,
                           message = Some (or_else detail ''Chunk upload failed.'') \<rparr>],
              documentId))
      else ([], documentId))"
  by pat_completeness auto
termination
  by (relation "measure (\<lambda>(server, f, cid, chunkSize, totalChunks, i, documentId). totalChunks - i)")
     auto

declare upload_chunks.simps [simp del]

text \<open>\<open>handleUpload\<close> (lines 54 to 105); \<open>server 0\<close> answers the whole-file request.\<close>

definition handleUpload :: "(nat \<Rightarrow> Response) \<Rightarrow> State \<Rightarrow> Effect list" where
  "handleUpload server s =
     (case the_file s of
        None \<Rightarrow> []
      | Some f \<Rightarrow>
          SetStatus \<lparr> progress = 0, status = uploading, message = None \<rparr> #
          (if size_bytes f \<le> CHUNK_SIZE then
             Post (PostUpload f (clientId s)) #
             (case server 0 of
                Resolved rid \<Rightarrow>
                  [SetStatus \<lparr> progress = 100, status = completed,
                               message = Some ''Upload complete!'' \<rparr>,
                   SetUploadedDocId rid]
              | Rejected detail \<Rightarrow>
                  [SetStatus \<lparr> progress = 0, status = error,
                               message = Some (or_else detail ''Upload failed.'') \<rparr>])
           else
             (let totalChunks = ceil_div (size_bytes f) CHUNK_SIZE;
                  loop = upload_chunks server f (clientId s) CHUNK_SIZE totalChunks 0 ''''
              in fst loop @
                 [SetUploadedDocId (Some (snd loop)),
                  SetStatus \<lparr> progress = 100, status = completed,
                              message = Some ''Upload complete!'' \<rparr>])))"

text \<open>\<open>handleFileChange\<close> (lines 46 to 52): the argument is \<open>e.target.files[0]\<close>, if any.\<close>

definition handleFileChange :: "File option \<Rightarrow> State \<Rightarrow> State" where
  "handleFileChange picked s =
     (case picked of
        None \<Rightarrow> s
      | Some f \<Rightarrow> s \<lparr> the_file := Some f,
                      the_status := \<lparr> progress = 0, status = idle, message = None \<rparr>,
                      uploadedDocId := None \<rparr>)"

text \<open>\<open>socket.onmessage\<close> (lines 32 to 41); an exception is caught and dropped.\<close>

definition onmessage :: "WsData option \<Rightarrow> State \<Rightarrow> State" where
  "onmessage parsed s =
     (case parsed of
        None \<Rightarrow> s
      | Some d \<Rightarrow>
          if event d = Some ''processing_complete'' then
            s \<lparr> processingMsg :=
                  Some (''Document '' @ [CHR 0x22] @ template (ws_filename d) @ [CHR 0x22]
                        @ '' (ID: '' @ template (ws_document_id d)
                        @ '') has finished processing and is ready!''),
                the_status := (the_status s) \<lparr> status := completed,
                                               message := Some ''Processing complete!'' \<rparr>,
                toasts := toasts s @
                  [''Document '' @ [CHR 0x22] @ template (ws_filename d) @ [CHR 0x22]
                   @ '' is ready!''] \<rparr>
          else s)"

subsection \<open>Running the effects\<close>

fun apply_effect :: "State \<Rightarrow> Effect \<Rightarrow> State" where
  "apply_effect s (SetStatus u) = s \<lparr> the_status := u \<rparr>"
| "apply_effect s (Post r) = s"
| "apply_effect s (SetUploadedDocId d) = s \<lparr> uploadedDocId := d \<rparr>"

definition run_effects :: "State \<Rightarrow> Effect list \<Rightarrow> State" where
  "run_effects s effs = foldl apply_effect s effs"

text \<open>The requests sent and the statuses written, in order.\<close>

fun requests :: "Effect list \<Rightarrow> Request list" where
  "requests [] = []"
| "requests (Post r # es) = r # requests es"
| "requests (e # es) = requests es"

fun status_writes :: "Effect list \<Rightarrow> UploadStatus list" where
  "status_writes [] = []"
| "status_writes (SetStatus u # es) = u # status_writes es"
| "status_writes (e # es) = status_writes es"

fun chunk_forms :: "Request list \<Rightarrow> ChunkForm list" where
  "chunk_forms [] = []"
| "chunk_forms (PostUploadChunked c # rs) = c # chunk_forms rs"
| "chunk_forms (r # rs) = chunk_forms rs"

subsection \<open>Vocabulary for the properties\<close>

text \<open>
  The identifiers the server has supplied: the non-empty \<open>document_id\<close> of a response, and
  those of the responses to the chunks \<open>i, \<dots>, k - 1\<close> in order. \<open>latest_id\<close> is the last
  of them, or \<open>d\<close> when there is none.
\<close>

definition returned_id :: "Response \<Rightarrow> string list" where
  "returned_id r = (case r of Resolved (Some s) \<Rightarrow> (if s = [] then [] else [s]) | _ \<Rightarrow> [])"

definition returned_ids :: "(nat \<Rightarrow> Response) \<Rightarrow> nat \<Rightarrow> nat \<Rightarrow> string list" where
  "returned_ids server i k = concat (map (\<lambda>j. returned_id (server j)) [i ..< k])"

definition latest_id :: "(nat \<Rightarrow> Response) \<Rightarrow> nat \<Rightarrow> nat \<Rightarrow> string \<Rightarrow> string" where
  "latest_id server i k d =
     (if returned_ids server i k = [] then d else last (returned_ids server i k))"

text \<open>The forms of the chunk requests the loop sends from index \<open>i\<close>, in order.\<close>

definition loop_forms ::
  "(nat \<Rightarrow> Response) \<Rightarrow> File \<Rightarrow> string \<Rightarrow> nat \<Rightarrow> nat \<Rightarrow> nat \<Rightarrow> string \<Rightarrow> ChunkForm list" where
  "loop_forms server f cid c n i d =
     chunk_forms (requests (fst (upload_chunks server f cid c n i d)))"

subsection \<open>Concrete inputs\<close>

text \<open>
  The component as it is mounted, a file of 12 MiB and one of 3 MiB, and the state after
  selecting each.
\<close>

definition initial_state :: State where
  "initial_state =
     \<lparr> clientId = ''client-1'', processingMsg = None, the_file = None,
       the_status = \<lparr> progress = 0, status = idle, message = None \<rparr>,
       uploadedDocId = None, toasts = [] \<rparr>"

definition file_12MiB :: File where
  "file_12MiB = \<lparr> name = ''report.pdf'', size_bytes = 12 * 1024 * 1024 \<rparr>"

definition file_3MiB :: File where
  "file_3MiB = \<lparr> name = ''notes.txt'', size_bytes = 3 * 1024 * 1024 \<rparr>"

definition state_12MiB :: State where
  "state_12MiB = handleFileChange (Some file_12MiB) initial_state"

definition state_3MiB :: State where
  "state_3MiB = handleFileChange (Some file_3MiB) initial_state"

text \<open>
  Servers: one that accepts every request and answers with the identifier \<open>doc-1\<close>; one
  that rejects the first request, and one that rejects the second, both without a detail
  message; one that answers the first request with the identifier \<open>A\<close>, the second with
  \<open>B\<close> and the later ones with none.
\<close>

definition server_ok :: "nat \<Rightarrow> Response" where
  "server_ok i = Resolved (Some ''doc-1'')"

definition server_rejects_0 :: "nat \<Rightarrow> Response" where
  "server_rejects_0 i = (if i = 0 then Rejected None else Resolved (Some ''doc-1''))"

definition server_rejects_1 :: "nat \<Rightarrow> Response" where
  "server_rejects_1 i = (if i = 1 then Rejected None else Resolved (Some ''doc-1''))"

definition server_two_ids :: "nat \<Rightarrow> Response" where
  "server_two_ids i =
     (if i = 0 then Resolved (Some ''A'')
      else if i = 1 then Resolved (Some ''B'')
      else Resolved None)"

text \<open>
  A server whose identifier for the document is the string \<open>new\<close>: it returns it with the
  first response and nothing with the later ones.
\<close>

definition server_new :: "nat \<Rightarrow> Response" where
  "server_new i = (if i = 0 then Resolved (Some ''new'') else Resolved None)"

text \<open>The state when the upload of the 3 MiB file to \<open>server_ok\<close> has finished.\<close>

definition state_uploaded :: State where
  "state_uploaded = run_effects state_3MiB (handleUpload server_ok state_3MiB)"

text \<open>A completion event for a document with the identifier \<open>B\<close>.\<close>

definition event_B :: WsData where
  "event_B = \<lparr> event = Some ''processing_complete'', ws_filename = Some ''old.pdf'',
               ws_document_id = Some ''B'' \<rparr>"

section \<open>The loop over the chunks\<close>

lemma requests_append: "requests (xs @ ys) = requests xs @ requests ys"
  by (induction xs rule: requests.induct) simp_all

lemma status_writes_append: "status_writes (xs @ ys) = status_writes xs @ status_writes ys"
  by (induction xs rule: status_writes.induct) simp_all

lemma chunk_forms_append: "chunk_forms (xs @ ys) = chunk_forms xs @ chunk_forms ys"
  by (induction xs rule: chunk_forms.induct) simp_all

lemma loop_forms_unfold:
  "loop_forms server f cid c n i d =
     (if i < n then
        chunkForm f cid c n i d #
        (case server i of
           Resolved rid \<Rightarrow> loop_forms server f cid c n (Suc i) (or_else rid d)
         | Rejected x \<Rightarrow> [])
      else [])"
  unfolding loop_forms_def
  by (subst upload_chunks.simps)
     (simp add: Let_def requests_append split: Response.split)

lemma loop_forms_length_le: "length (loop_forms server f cid c n i d) \<le> n - i"
proof (induction "n - i" arbitrary: i d)
  case 0
  then show ?case by (subst loop_forms_unfold) simp
next
  case (Suc m)
  then have "m = n - Suc i" "i < n" by simp_all
  with Suc.hyps(1) have "\<And>d'. length (loop_forms server f cid c n (Suc i) d') \<le> n - Suc i"
    by blast
  then have "length (loop_forms server f cid c n (Suc i) d') < n - i" for d'
    using \<open>i < n\<close> le_less_trans [of "length (loop_forms server f cid c n (Suc i) d')" "n - Suc i" "n - i"]
    by simp
  then show ?case using \<open>i < n\<close>
    by (subst loop_forms_unfold) (simp add: Suc_le_eq split: Response.split)
qed

lemma returned_ids_step:
  "i < k \<Longrightarrow> returned_ids server i k = returned_id (server i) @ returned_ids server (Suc i) k"
  by (simp add: returned_ids_def upt_conv_Cons)

lemma latest_id_step:
  "i < k \<Longrightarrow> server i = Resolved rid \<Longrightarrow>
   latest_id server (Suc i) k (or_else rid d) = latest_id server i k d"
  by (cases rid) (auto simp: latest_id_def returned_ids_step returned_id_def or_else_def)

lemma latest_id_same: "latest_id server i i d = d"
  by (simp add: latest_id_def returned_ids_def)

lemma loop_forms_nth:
  "j < length (loop_forms server f cid c n i d) \<Longrightarrow>
   loop_forms server f cid c n i d ! j = chunkForm f cid c n (i + j) (latest_id server i (i + j) d)"
proof (induction j arbitrary: i d)
  case 0
  then have "i < n"
    by (subst (asm) loop_forms_unfold) (simp split: if_splits)
  then show ?case
    by (subst loop_forms_unfold) (simp add: latest_id_same)
next
  case (Suc j)
  from Suc.prems have "i < n"
    by (subst (asm) loop_forms_unfold) (simp split: if_splits)
  show ?case
  proof (cases "server i")
    case (Resolved rid)
    with Suc.prems \<open>i < n\<close> have len: "j < length (loop_forms server f cid c n (Suc i) (or_else rid d))"
      by (subst (asm) loop_forms_unfold) simp
    have "loop_forms server f cid c n i d ! Suc j = loop_forms server f cid c n (Suc i) (or_else rid d) ! j"
      using Resolved \<open>i < n\<close> by (subst loop_forms_unfold) simp
    also have "\<dots> = chunkForm f cid c n (Suc i + j) (latest_id server (Suc i) (Suc i + j) (or_else rid d))"
      by (rule Suc.IH [OF len])
    also have "latest_id server (Suc i) (Suc i + j) (or_else rid d) = latest_id server i (i + Suc j) d"
      using latest_id_step [of i "i + Suc j" server rid d] Resolved by simp
    finally show ?thesis by simp
  next
    case (Rejected x)
    with Suc.prems \<open>i < n\<close> show ?thesis
      by (subst (asm) loop_forms_unfold) simp
  qed
qed

lemma loop_forms_sequential:
  "Suc j < length (loop_forms server f cid c n i d) \<Longrightarrow> \<exists>rid. server (i + j) = Resolved rid"
proof (induction j arbitrary: i d)
  case 0
  then show ?case
    by (subst (asm) loop_forms_unfold) (auto split: if_splits Response.splits)
next
  case (Suc j)
  from Suc.prems have "i < n"
    by (subst (asm) loop_forms_unfold) (simp split: if_splits)
  show ?case
  proof (cases "server i")
    case (Resolved rid)
    with Suc.prems \<open>i < n\<close> have "Suc j < length (loop_forms server f cid c n (Suc i) (or_else rid d))"
      by (subst (asm) loop_forms_unfold) simp
    from Suc.IH [OF this] show ?thesis by simp
  next
    case (Rejected x)
    with Suc.prems \<open>i < n\<close> show ?thesis
      by (subst (asm) loop_forms_unfold) simp
  qed
qed

lemma loop_forms_all_resolved:
  "(\<And>k. i \<le> k \<Longrightarrow> k < n \<Longrightarrow> \<exists>rid. server k = Resolved rid) \<Longrightarrow>
   length (loop_forms server f cid c n i d) = n - i"
proof (induction "n - i" arbitrary: i d)
  case 0
  then show ?case by (subst loop_forms_unfold) simp
next
  case (Suc m)
  then have m: "m = n - Suc i" and "i < n" by simp_all
  from Suc.prems [of i] \<open>i < n\<close> obtain rid where rid: "server i = Resolved rid" by auto
  have "length (loop_forms server f cid c n (Suc i) (or_else rid d)) = n - Suc i"
    by (rule Suc.hyps(1) [OF m]) (simp add: Suc.prems)
  then show ?case using \<open>i < n\<close> rid
    by (subst loop_forms_unfold) simp
qed

lemma loop_forms_first_rejected:
  "i \<le> k \<Longrightarrow> k < n \<Longrightarrow> server k = Rejected x \<Longrightarrow>
   (\<And>j. i \<le> j \<Longrightarrow> j < k \<Longrightarrow> \<exists>rid. server j = Resolved rid) \<Longrightarrow>
   length (loop_forms server f cid c n i d) = Suc (k - i)"
proof (induction "k - i" arbitrary: i d)
  case 0
  then have "i = k" by simp
  with 0 show ?case by (subst loop_forms_unfold) simp
next
  case (Suc m)
  then have m: "m = k - Suc i" and "i < k" by simp_all
  from Suc.prems(4) [of i] \<open>i < k\<close> obtain rid where rid: "server i = Resolved rid" by auto
  have "length (loop_forms server f cid c n (Suc i) (or_else rid d)) = Suc (k - Suc i)"
    by (rule Suc.hyps(1) [OF m]) (use Suc.prems \<open>i < k\<close> in auto)
  then show ?case using \<open>i < k\<close> \<open>k < n\<close> rid
    by (subst loop_forms_unfold) (simp add: Suc_diff_Suc)
qed

section \<open>Splitting a file into chunks\<close>

lemma ceil_div_ceiling:
  assumes "0 < c"
  shows "int (ceil_div sz c) = \<lceil>real sz / real c\<rceil>"
proof -
  have "\<lceil>real sz / real c\<rceil> = \<lceil>of_int (int sz) / (of_int (int c) :: real)\<rceil>" by simp
  also have "\<dots> = - (- int sz div int c)" by (rule ceiling_divide_eq_div)
  also have "\<dots> = (if int sz mod int c = 0 then int sz div int c else int sz div int c + 1)"
    using assms by (simp add: zdiv_zminus1_eq_if)
  also have "\<dots> = int (ceil_div sz c)"
  proof -
    have m: "int sz mod int c = int (sz mod c)" by (simp add: zmod_int)
    have d: "int sz div int c = int (sz div c)" by (simp add: zdiv_int)
    show ?thesis unfolding m d ceil_div_def by simp
  qed
  finally show ?thesis by simp
qed

lemma ceil_div_upper: "0 < c \<Longrightarrow> sz \<le> ceil_div sz c * c"
proof -
  assume "0 < c"
  have eq: "sz = sz div c * c + sz mod c" by simp
  have lt: "sz mod c < c" using \<open>0 < c\<close> by simp
  show ?thesis
  proof (cases "sz mod c = 0")
    case True
    with eq show ?thesis by (simp add: ceil_div_def)
  next
    case False
    have "sz \<le> sz div c * c + c" using eq lt by linarith
    with False show ?thesis by (simp add: ceil_div_def)
  qed
qed

lemma ceil_div_lower: "0 < c \<Longrightarrow> i < ceil_div sz c \<Longrightarrow> i * c < sz"
proof -
  assume c: "0 < c" and i: "i < ceil_div sz c"
  have eq: "sz = sz div c * c + sz mod c" by simp
  show ?thesis
  proof (cases "sz mod c = 0")
    case True
    with i have "i < sz div c" by (simp add: ceil_div_def)
    then have "Suc i * c \<le> sz div c * c" by (intro mult_le_mono1) simp
    with eq True c show ?thesis by simp
  next
    case False
    with i have "i \<le> sz div c" by (simp add: ceil_div_def)
    then have "i * c \<le> sz div c * c" by (rule mult_le_mono1)
    with eq False show ?thesis by linarith
  qed
qed

lemma length_split: "length (split totalSize chunkSize) = ceil_div totalSize chunkSize"
  by (simp add: split_def)

lemma split_nth:
  "i < ceil_div totalSize chunkSize \<Longrightarrow>
   split totalSize chunkSize ! i = (i * chunkSize, min (i * chunkSize + chunkSize) totalSize)"
  by (simp add: split_def chunk_range_def Let_def)

lemma ceil_div_pos: "0 < c \<Longrightarrow> 0 < sz \<Longrightarrow> 0 < ceil_div sz c"
  using ceil_div_upper [of c sz] by (cases "ceil_div sz c") simp_all

lemma in_range_iff:
  assumes "0 < c" "b < sz"
  shows "i < ceil_div sz c \<and> i * c \<le> b \<and> b < min (i * c + c) sz \<longleftrightarrow> i = b div c"
proof
  assume h: "i < ceil_div sz c \<and> i * c \<le> b \<and> b < min (i * c + c) sz"
  then have "i * c \<le> b" "b < Suc i * c" by simp_all
  then have "i \<le> b div c" "b div c < Suc i"
    using assms(1) by (simp_all add: less_eq_div_iff_mult_less_eq div_less_iff_less_mult del: mult_Suc)
  then show "i = b div c" by simp
next
  assume i: "i = b div c"
  have "b < sz" by fact
  also have "sz \<le> ceil_div sz c * c" using assms(1) by (rule ceil_div_upper)
  finally have "b div c < ceil_div sz c" using assms(1) by (simp add: div_less_iff_less_mult)
  moreover have "b div c * c \<le> b" by simp
  moreover have "b < b div c * c + c"
  proof -
    have "b = b div c * c + b mod c" by simp
    moreover have "b mod c < c" using assms(1) by simp
    ultimately show ?thesis by linarith
  qed
  ultimately show "i < ceil_div sz c \<and> i * c \<le> b \<and> b < min (i * c + c) sz"
    using i assms(2) by simp
qed

text \<open>
  Claim C7. For every \<open>totalSize > 0\<close> and \<open>chunkSize > 0\<close> the ranges the loop computes
  number exactly \<open>\<lceil>totalSize / chunkSize\<rceil>\<close>; every byte of \<open>[0, totalSize)\<close> lies in exactly
  one of them (they are exhaustive and do not overlap); each range ends where the next one
  starts, the first starts at 0 and the last ends at \<open>totalSize\<close>; none is empty or longer
  than \<open>chunkSize\<close>. The ranges are the value of the function \<open>split\<close> at the two sizes and
  depend on nothing else.
\<close>

theorem split_partition:
  assumes "0 < totalSize" and "0 < chunkSize"
  shows "(let r = split totalSize chunkSize in
           int (length r) = \<lceil>real totalSize / real chunkSize\<rceil>
         \<and> (\<forall>b<totalSize. \<exists>!i. i < length r \<and> fst (r ! i) \<le> b \<and> b < snd (r ! i))
         \<and> (\<forall>i. Suc i < length r \<longrightarrow> snd (r ! i) = fst (r ! Suc i))
         \<and> fst (r ! 0) = 0 \<and> snd (last r) = totalSize
         \<and> (\<forall>i<length r. fst (r ! i) < snd (r ! i) \<and> snd (r ! i) - fst (r ! i) \<le> chunkSize))"
proof -
  let ?n = "ceil_div totalSize chunkSize"
  let ?r = "split totalSize chunkSize"
  have len: "length ?r = ?n" by (rule length_split)
  have pos: "0 < ?n" using assms by (simp add: ceil_div_pos)
  have count: "int (length ?r) = \<lceil>real totalSize / real chunkSize\<rceil>"
    using assms(2) by (simp add: len ceil_div_ceiling)
  have cover: "\<exists>!i. i < length ?r \<and> fst (?r ! i) \<le> b \<and> b < snd (?r ! i)" if "b < totalSize" for b
  proof (rule ex1I [of _ "b div chunkSize"])
    from in_range_iff [OF assms(2) that, of "b div chunkSize"]
    show "b div chunkSize < length ?r \<and> fst (?r ! (b div chunkSize)) \<le> b
          \<and> b < snd (?r ! (b div chunkSize))"
      by (simp add: len split_nth)
  next
    fix i assume h: "i < length ?r \<and> fst (?r ! i) \<le> b \<and> b < snd (?r ! i)"
    then have i: "i < ?n" by (simp add: len)
    with h have "i * chunkSize \<le> b \<and> b < min (i * chunkSize + chunkSize) totalSize"
      by (simp add: split_nth)
    with i in_range_iff [OF assms(2) that, of i] show "i = b div chunkSize"
      by blast
  qed
  have contiguous: "snd (?r ! i) = fst (?r ! Suc i)" if "Suc i < length ?r" for i
  proof -
    from that have "Suc i < ?n" by (simp add: len)
    then have "Suc i * chunkSize < totalSize" using assms(2) by (simp only: ceil_div_lower)
    then show ?thesis using \<open>Suc i < ?n\<close> by (simp add: split_nth)
  qed
  have first: "fst (?r ! 0) = 0" using pos by (simp add: split_nth)
  have final: "snd (last ?r) = totalSize"
  proof -
    have "?r \<noteq> []" using pos len by auto
    then have "last ?r = ?r ! (?n - 1)" by (simp add: last_conv_nth len)
    moreover have "(?n - 1) * chunkSize + chunkSize = ?n * chunkSize"
      using pos by (cases ?n) simp_all
    moreover have "totalSize \<le> ?n * chunkSize" using assms(2) by (rule ceil_div_upper)
    ultimately show ?thesis using pos by (simp add: split_nth)
  qed
  have bounded: "fst (?r ! i) < snd (?r ! i) \<and> snd (?r ! i) - fst (?r ! i) \<le> chunkSize"
    if "i < length ?r" for i
  proof -
    from that have i: "i < ?n" by (simp add: len)
    then have "i * chunkSize < totalSize" using assms(2) by (simp only: ceil_div_lower)
    then show ?thesis using i assms(2) by (simp add: split_nth)
  qed
  show ?thesis
    unfolding Let_def using count cover contiguous first final bounded by blast
qed

theorem split_partition_witness:
  "(0::nat) < 12 \<and> (0::nat) < 5 \<and> split 12 5 = [(0, 5), (5, 10), (10, 12)] \<and>
   (let r = split 12 5 in
      int (length r) = \<lceil>real (12::nat) / real (5::nat)\<rceil>
    \<and> (\<forall>b<12. \<exists>!i. i < length r \<and> fst (r ! i) \<le> b \<and> b < snd (r ! i))
    \<and> (\<forall>i. Suc i < length r \<longrightarrow> snd (r ! i) = fst (r ! Suc i))
    \<and> fst (r ! 0) = 0 \<and> snd (last r) = 12
    \<and> (\<forall>i<length r. fst (r ! i) < snd (r ! i) \<and> snd (r ! i) - fst (r ! i) \<le> 5))"
proof -
  have "split 12 5 = [(0, 5), (5, 10), (10, 12)]"
    by (simp add: split_def ceil_div_def chunk_range_def upt_conv_Cons)
  then show ?thesis using split_partition [of 12 5] by simp
qed

section \<open>The requests of a chunked upload\<close>

lemma loop_requests:
  "requests (fst (upload_chunks server f cid c n i d)) =
   map PostUploadChunked (loop_forms server f cid c n i d)"
proof (induction "n - i" arbitrary: i d)
  case 0
  then show ?case
    by (subst upload_chunks.simps, subst loop_forms_unfold) simp
next
  case (Suc m)
  then have m: "m = n - Suc i" and "i < n" by simp_all
  show ?case
  proof (cases "server i")
    case (Resolved rid)
    have "requests (fst (upload_chunks server f cid c n i d)) =
          PostUploadChunked (chunkForm f cid c n i d) #
          requests (fst (upload_chunks server f cid c n (Suc i) (or_else rid d)))"
      using \<open>i < n\<close> Resolved
      by (subst upload_chunks.simps) (simp add: Let_def requests_append)
    also have "requests (fst (upload_chunks server f cid c n (Suc i) (or_else rid d))) =
               map PostUploadChunked (loop_forms server f cid c n (Suc i) (or_else rid d))"
      by (rule Suc.hyps(1) [OF m])
    finally show ?thesis using \<open>i < n\<close> Resolved
      by (subst loop_forms_unfold) simp
  next
    case (Rejected x)
    then show ?thesis using \<open>i < n\<close>
      by (subst upload_chunks.simps, subst loop_forms_unfold) simp
  qed
qed

lemma chunk_forms_map: "chunk_forms (map PostUploadChunked cs) = cs"
  by (induction cs) simp_all

lemma loop_documentId:
  "snd (upload_chunks server f cid c n i d) =
   latest_id server i (i + length (loop_forms server f cid c n i d)) d"
proof (induction "n - i" arbitrary: i d)
  case 0
  then show ?case
    by (subst upload_chunks.simps, subst loop_forms_unfold) (simp add: latest_id_same)
next
  case (Suc m)
  then have m: "m = n - Suc i" and "i < n" by simp_all
  show ?case
  proof (cases "server i")
    case (Resolved rid)
    have "snd (upload_chunks server f cid c n i d) =
          snd (upload_chunks server f cid c n (Suc i) (or_else rid d))"
      using \<open>i < n\<close> Resolved by (subst upload_chunks.simps) (simp add: Let_def)
    also have "\<dots> = latest_id server (Suc i)
                 (Suc i + length (loop_forms server f cid c n (Suc i) (or_else rid d))) (or_else rid d)"
      by (rule Suc.hyps(1) [OF m])
    also have "\<dots> = latest_id server i
                 (Suc i + length (loop_forms server f cid c n (Suc i) (or_else rid d))) d"
      using Resolved by (intro latest_id_step) simp_all
    also have "Suc i + length (loop_forms server f cid c n (Suc i) (or_else rid d)) =
               i + length (loop_forms server f cid c n i d)"
      using \<open>i < n\<close> Resolved by (subst (2) loop_forms_unfold) simp
    finally show ?thesis .
  next
    case (Rejected x)
    have "snd (upload_chunks server f cid c n i d) = d"
      using \<open>i < n\<close> Rejected by (subst upload_chunks.simps) simp
    moreover have "length (loop_forms server f cid c n i d) = 1"
      using \<open>i < n\<close> Rejected by (subst loop_forms_unfold) simp
    moreover have "latest_id server i (i + 1) d = d"
      using Rejected by (simp add: latest_id_def returned_ids_def returned_id_def)
    ultimately show ?thesis by simp
  qed
qed

lemma handleUpload_chunked:
  assumes "the_file s = Some f" and "CHUNK_SIZE < size_bytes f"
  shows "handleUpload server s =
           SetStatus \<lparr> progress = 0, status = uploading, message = None \<rparr> #
           fst (upload_chunks server f (clientId s) CHUNK_SIZE
                  (ceil_div (size_bytes f) CHUNK_SIZE) 0 '''') @
           [SetUploadedDocId (Some (snd (upload_chunks server f (clientId s) CHUNK_SIZE
                  (ceil_div (size_bytes f) CHUNK_SIZE) 0 ''''))),
            SetStatus \<lparr> progress = 100, status = completed,
                        message = Some ''Upload complete!'' \<rparr>]"
  using assms by (simp add: handleUpload_def Let_def)

lemma handleUpload_requests:
  assumes "the_file s = Some f" and "CHUNK_SIZE < size_bytes f"
  shows "requests (handleUpload server s) =
         map PostUploadChunked
           (loop_forms server f (clientId s) CHUNK_SIZE (ceil_div (size_bytes f) CHUNK_SIZE) 0 '''')"
  by (simp add: handleUpload_chunked [OF assms] requests_append loop_requests)

lemma CHUNK_SIZE_pos: "0 < CHUNK_SIZE"
  by (simp add: CHUNK_SIZE_def)

lemma chunked_count_gt1: "0 < c \<Longrightarrow> c < sz \<Longrightarrow> 1 < ceil_div sz c"
proof (rule ccontr)
  assume c: "0 < c" "c < sz" and "\<not> 1 < ceil_div sz c"
  then have "ceil_div sz c * c \<le> 1 * c" by (intro mult_le_mono1) simp
  with ceil_div_upper [OF c(1), of sz] c(2) show False by simp
qed

lemma returned_ids_member:
  "x \<in> set (returned_ids server i k) \<longleftrightarrow>
   x \<noteq> [] \<and> (\<exists>m. i \<le> m \<and> m < k \<and> server m = Resolved (Some x))"
proof
  assume "x \<in> set (returned_ids server i k)"
  then show "x \<noteq> [] \<and> (\<exists>m. i \<le> m \<and> m < k \<and> server m = Resolved (Some x))"
    by (auto simp: returned_ids_def returned_id_def
             split: Response.splits option.splits if_splits)
next
  assume "x \<noteq> [] \<and> (\<exists>m. i \<le> m \<and> m < k \<and> server m = Resolved (Some x))"
  then obtain m where "x \<noteq> []" "i \<le> m" "m < k" "server m = Resolved (Some x)" by blast
  then have "m \<in> set [i ..< k]" "x \<in> set (returned_id (server m))"
    by (simp_all add: returned_id_def)
  then show "x \<in> set (returned_ids server i k)"
    unfolding returned_ids_def set_concat by (intro UN_I [of "returned_id (server m)"]) simp_all
qed

lemma latest_id_member:
  "returned_ids server i k \<noteq> [] \<Longrightarrow> latest_id server i k d \<in> set (returned_ids server i k)"
  by (simp add: latest_id_def)

section \<open>Runs on the concrete inputs\<close>

text \<open>
  The loop is unfolded one iteration at a time: each rule applies only once its condition
  on the index has been decided.
\<close>

lemma upload_chunks_stop:
  "\<not> i < n \<Longrightarrow> upload_chunks server f cid c n i d = ([], d)"
  by (subst upload_chunks.simps) simp

lemma upload_chunks_step:
  "i < n \<Longrightarrow>
   upload_chunks server f cid c n i d =
     (case server i of
        Resolved rid \<Rightarrow>
          (Post (PostUploadChunked (chunkForm f cid c n i d))
           # SetStatus \<lparr> progress = round_percent (i + 1) n, status = uploading,
                         message = Some (''Chunk '' @ js_String (i + 1) @ '' uploaded'') \<rparr>
           # (if i = n - 1
              then [SetStatus \<lparr> progress = 100, status = assembling,
                                message = Some ''Assembling and processing...'' \<rparr>]
              else [])
           @ fst (upload_chunks server f cid c n (i + 1) (or_else rid d)),
           snd (upload_chunks server f cid c n (i + 1) (or_else rid d)))
      | Rejected detail \<Rightarrow>
          ([Post (PostUploadChunked (chunkForm f cid c n i d)),
            SetStatus \<lparr> progress = round_percent (i + 1) n, status = error,
                        message = Some (or_else detail ''Chunk upload failed.'') \<rparr>],
           d))"
  by (subst upload_chunks.simps) (simp add: Let_def split: Response.split)

lemma js_String_digits:
  "js_String 0 = ''0''" "js_String 1 = ''1''" "js_String (Suc 0) = ''1''"
  "js_String 2 = ''2''" "js_String 3 = ''3''"
  by (simp_all add: js_String.simps char_of_def bit_0)


lemma js_String_Suc_digits:
  "js_String (Suc (Suc 0)) = ''2''" "js_String (Suc (Suc (Suc 0))) = ''3''"
  using js_String_digits by (simp_all add: numeral_2_eq_2 numeral_3_eq_3)

lemma state_12MiB_eq:
  "state_12MiB = \<lparr> clientId = ''client-1'', processingMsg = None, the_file = Some file_12MiB,
       the_status = \<lparr> progress = 0, status = idle, message = None \<rparr>,
       uploadedDocId = None, toasts = [] \<rparr>"
  by (simp add: state_12MiB_def handleFileChange_def initial_state_def)

lemma file_12MiB: "the_file state_12MiB = Some file_12MiB"
  by (simp add: state_12MiB_eq)

lemma clientId_12MiB: "clientId state_12MiB = ''client-1''"
  by (simp add: state_12MiB_eq)

lemma count_12MiB: "ceil_div (size_bytes file_12MiB) CHUNK_SIZE = 3"
  by (simp add: ceil_div_def file_12MiB_def CHUNK_SIZE_def)

lemma chunked_12MiB: "CHUNK_SIZE < size_bytes file_12MiB"
  by (simp add: file_12MiB_def CHUNK_SIZE_def)

lemmas eval_loop =
  upload_chunks_step upload_chunks_stop chunkForm_def chunk_range_def round_percent_def
  or_else_def js_String_digits js_String_Suc_digits Let_def file_12MiB_def CHUNK_SIZE_def

lemma trace_ok_12MiB:
  "handleUpload server_ok state_12MiB =
     [SetStatus \<lparr> progress = 0, status = uploading, message = None \<rparr>,
      Post (PostUploadChunked \<lparr> file_chunk = (0, 5242880), document_id = ''new'',
              chunk_index = ''0'', total_chunks = ''3'', filename = ''report.pdf'',
              client_id = Some ''client-1'' \<rparr>),
      SetStatus \<lparr> progress = 33, status = uploading, message = Some ''Chunk 1 uploaded'' \<rparr>,
      Post (PostUploadChunked \<lparr> file_chunk = (5242880, 10485760), document_id = ''doc-1'',
              chunk_index = ''1'', total_chunks = ''3'', filename = ''report.pdf'',
              client_id = None \<rparr>),
      SetStatus \<lparr> progress = 67, status = uploading, message = Some ''Chunk 2 uploaded'' \<rparr>,
      Post (PostUploadChunked \<lparr> file_chunk = (10485760, 12582912), document_id = ''doc-1'',
              chunk_index = ''2'', total_chunks = ''3'', filename = ''report.pdf'',
              client_id = None \<rparr>),
      SetStatus \<lparr> progress = 100, status = uploading, message = Some ''Chunk 3 uploaded'' \<rparr>,
      SetStatus \<lparr> progress = 100, status = assembling,
                  message = Some ''Assembling and processing...'' \<rparr>,
      SetUploadedDocId (Some ''doc-1''),
      SetStatus \<lparr> progress = 100, status = completed, message = Some ''Upload complete!'' \<rparr>]"
proof -
  show ?thesis
    unfolding handleUpload_chunked [OF file_12MiB chunked_12MiB] count_12MiB clientId_12MiB
    by (simp add: eval_loop server_ok_def)
qed

lemma trace_rejects_1_12MiB:
  "handleUpload server_rejects_1 state_12MiB =
     [SetStatus \<lparr> progress = 0, status = uploading, message = None \<rparr>,
      Post (PostUploadChunked \<lparr> file_chunk = (0, 5242880), document_id = ''new'',
              chunk_index = ''0'', total_chunks = ''3'', filename = ''report.pdf'',
              client_id = Some ''client-1'' \<rparr>),
      SetStatus \<lparr> progress = 33, status = uploading, message = Some ''Chunk 1 uploaded'' \<rparr>,
      Post (PostUploadChunked \<lparr> file_chunk = (5242880, 10485760), document_id = ''doc-1'',
              chunk_index = ''1'', total_chunks = ''3'', filename = ''report.pdf'',
              client_id = None \<rparr>),
      SetStatus \<lparr> progress = 67, status = error, message = Some ''Chunk upload failed.'' \<rparr>,
      SetUploadedDocId (Some ''doc-1''),
      SetStatus \<lparr> progress = 100, status = completed, message = Some ''Upload complete!'' \<rparr>]"
  unfolding handleUpload_chunked [OF file_12MiB chunked_12MiB] count_12MiB clientId_12MiB
  by (simp add: eval_loop server_rejects_1_def)

lemma trace_rejects_0_12MiB:
  "handleUpload server_rejects_0 state_12MiB =
     [SetStatus \<lparr> progress = 0, status = uploading, message = None \<rparr>,
      Post (PostUploadChunked \<lparr> file_chunk = (0, 5242880), document_id = ''new'',
              chunk_index = ''0'', total_chunks = ''3'', filename = ''report.pdf'',
              client_id = Some ''client-1'' \<rparr>),
      SetStatus \<lparr> progress = 33, status = error, message = Some ''Chunk upload failed.'' \<rparr>,
      SetUploadedDocId (Some ''''),
      SetStatus \<lparr> progress = 100, status = completed, message = Some ''Upload complete!'' \<rparr>]"
  unfolding handleUpload_chunked [OF file_12MiB chunked_12MiB] count_12MiB clientId_12MiB
  by (simp add: eval_loop server_rejects_0_def)

lemma trace_two_ids_12MiB:
  "handleUpload server_two_ids state_12MiB =
     [SetStatus \<lparr> progress = 0, status = uploading, message = None \<rparr>,
      Post (PostUploadChunked \<lparr> file_chunk = (0, 5242880), document_id = ''new'',
              chunk_index = ''0'', total_chunks = ''3'', filename = ''report.pdf'',
              client_id = Some ''client-1'' \<rparr>),
      SetStatus \<lparr> progress = 33, status = uploading, message = Some ''Chunk 1 uploaded'' \<rparr>,
      Post (PostUploadChunked \<lparr> file_chunk = (5242880, 10485760), document_id = ''A'',
              chunk_index = ''1'', total_chunks = ''3'', filename = ''report.pdf'',
              client_id = None \<rparr>),
      SetStatus \<lparr> progress = 67, status = uploading, message = Some ''Chunk 2 uploaded'' \<rparr>,
      Post (PostUploadChunked \<lparr> file_chunk = (10485760, 12582912), document_id = ''B'',
              chunk_index = ''2'', total_chunks = ''3'', filename = ''report.pdf'',
              client_id = None \<rparr>),
      SetStatus \<lparr> progress = 100, status = uploading, message = Some ''Chunk 3 uploaded'' \<rparr>,
      SetStatus \<lparr> progress = 100, status = assembling,
                  message = Some ''Assembling and processing...'' \<rparr>,
      SetUploadedDocId (Some ''B''),
      SetStatus \<lparr> progress = 100, status = completed, message = Some ''Upload complete!'' \<rparr>]"
  unfolding handleUpload_chunked [OF file_12MiB chunked_12MiB] count_12MiB clientId_12MiB
  by (simp add: eval_loop server_two_ids_def)

lemma state_3MiB_eq:
  "state_3MiB = \<lparr> clientId = ''client-1'', processingMsg = None, the_file = Some file_3MiB,
       the_status = \<lparr> progress = 0, status = idle, message = None \<rparr>,
       uploadedDocId = None, toasts = [] \<rparr>"
  by (simp add: state_3MiB_def handleFileChange_def initial_state_def)

lemma whole_3MiB: "size_bytes file_3MiB \<le> CHUNK_SIZE"
  by (simp add: file_3MiB_def CHUNK_SIZE_def)

lemma trace_ok_3MiB:
  "handleUpload server_ok state_3MiB =
     [SetStatus \<lparr> progress = 0, status = uploading, message = None \<rparr>,
      Post (PostUpload file_3MiB ''client-1''),
      SetStatus \<lparr> progress = 100, status = completed, message = Some ''Upload complete!'' \<rparr>,
      SetUploadedDocId (Some ''doc-1'')]"
  using whole_3MiB by (simp add: handleUpload_def state_3MiB_eq server_ok_def)

lemma state_uploaded_eq:
  "state_uploaded = \<lparr> clientId = ''client-1'', processingMsg = None, the_file = Some file_3MiB,
       the_status = \<lparr> progress = 100, status = completed, message = Some ''Upload complete!'' \<rparr>,
       uploadedDocId = Some ''doc-1'', toasts = [] \<rparr>"
  by (simp add: state_uploaded_def trace_ok_3MiB run_effects_def) (simp add: state_3MiB_eq)

lemma handleUpload_forms:
  assumes "the_file s = Some f" and "CHUNK_SIZE < size_bytes f"
  shows "chunk_forms (requests (handleUpload server s)) =
         loop_forms server f (clientId s) CHUNK_SIZE (ceil_div (size_bytes f) CHUNK_SIZE) 0 ''''"
  by (simp add: handleUpload_requests [OF assms] chunk_forms_map)

lemma loop_forms_nonempty: "i < n \<Longrightarrow> 0 < length (loop_forms server f cid c n i d)"
  by (subst loop_forms_unfold) simp

lemma returned_ids_snoc:
  "returned_ids server 0 (Suc j) = returned_ids server 0 j @ returned_id (server j)"
  by (simp add: returned_ids_def)

lemma returned_ids_nonempty: "x \<in> set (returned_ids server i k) \<Longrightarrow> x \<noteq> []"
  by (simp add: returned_ids_member)

lemma document_id_latest:
  "document_id (chunkForm f cid c n j (latest_id server 0 j '''')) =
     (if returned_ids server 0 j = [] then ''new'' else last (returned_ids server 0 j))"
proof (cases "returned_ids server 0 j = []")
  case True
  then show ?thesis by (simp add: chunkForm_def latest_id_def or_else_def)
next
  case False
  then have "last (returned_ids server 0 j) \<in> set (returned_ids server 0 j)" by simp
  then have "last (returned_ids server 0 j) \<noteq> []" by (rule returned_ids_nonempty)
  with False show ?thesis by (simp add: chunkForm_def latest_id_def or_else_def)
qed

lemma handleUpload_uploadedDocId:
  assumes "the_file s = Some f" and "CHUNK_SIZE < size_bytes f"
  shows "uploadedDocId (run_effects s (handleUpload server s)) =
         Some (snd (upload_chunks server f (clientId s) CHUNK_SIZE
                      (ceil_div (size_bytes f) CHUNK_SIZE) 0 ''''))"
  by (simp add: handleUpload_chunked [OF assms] run_effects_def)

section \<open>The decimal rendering of an index\<close>

text \<open>Different numbers have different renderings, so a chunk index identifies its chunk.\<close>

lemma js_String_nonempty: "js_String n \<noteq> []"
  by (subst js_String.simps) simp

lemma digit_char_inj:
  "a < 10 \<Longrightarrow> b < 10 \<Longrightarrow> char_of (48 + a :: nat) = char_of (48 + b :: nat) \<Longrightarrow> a = b"
proof -
  assume a: "a < 10" and b: "b < 10" and eq: "char_of (48 + a) = char_of (48 + b)"
  from eq have "of_char (char_of (48 + a) :: char) = (of_char (char_of (48 + b) :: char) :: nat)"
    by simp
  then have "(48 + a) mod 256 = (48 + b) mod 256" by (simp add: of_char_of)
  with a b show "a = b" by simp
qed

lemma js_String_inj: "js_String a = js_String b \<Longrightarrow> a = b"
proof (induction a arbitrary: b rule: js_String.induct)
  case (1 a)
  show ?case
  proof (cases "a < 10")
    case True
    with "1.prems" have sa: "js_String b = [char_of (48 + a)]"
      by (subst (asm) js_String.simps) simp
    show ?thesis
    proof (cases "b < 10")
      case b: True
      with sa have "char_of (48 + b) = char_of (48 + a)"
        by (subst (asm) js_String.simps) simp
      with True b show ?thesis by (intro digit_char_inj) simp_all
    next
      case False
      with sa have "js_String (b div 10) @ [char_of (48 + b mod 10)] = [char_of (48 + a)]"
        by (subst (asm) js_String.simps) simp
      then show ?thesis using js_String_nonempty [of "b div 10"] by (simp add: append_eq_Cons_conv)
    qed
  next
    case False
    then have sa: "js_String a = js_String (a div 10) @ [char_of (48 + a mod 10)]"
      by (subst js_String.simps) simp
    show ?thesis
    proof (cases "b < 10")
      case True
      then have "js_String b = [char_of (48 + b)]" by (subst js_String.simps) simp
      with sa "1.prems" show ?thesis
        using js_String_nonempty [of "a div 10"] by (simp add: append_eq_Cons_conv)
    next
      case b: False
      then have "js_String b = js_String (b div 10) @ [char_of (48 + b mod 10)]"
        by (subst js_String.simps) simp
      with sa "1.prems" have hi: "js_String (a div 10) = js_String (b div 10)"
        and lo: "char_of (48 + a mod 10) = char_of (48 + b mod 10)" by simp_all
      from "1.IH" [OF False hi] have "a div 10 = b div 10" .
      moreover from lo have "a mod 10 = b mod 10" by (intro digit_char_inj) simp_all
      ultimately show ?thesis by (metis div_mult_mod_eq)
    qed
  qed
qed

lemma round_percent_full: "0 < n \<Longrightarrow> round_percent n n = 100"
  unfolding round_percent_def by (rule div_nat_eqI) simp_all

lemma loop_all_resolved_end:
  "i < n \<Longrightarrow> (\<And>k. i \<le> k \<Longrightarrow> k < n \<Longrightarrow> \<exists>rid. server k = Resolved rid) \<Longrightarrow>
   \<exists>pre. fst (upload_chunks server f cid c n i d) =
           pre @ [SetStatus \<lparr> progress = 100, status = uploading,
                               message = Some (''Chunk '' @ js_String n @ '' uploaded'') \<rparr>,
                  SetStatus \<lparr> progress = 100, status = assembling,
                               message = Some ''Assembling and processing...'' \<rparr>]
         \<and> length (requests pre) = n - i"
proof (induction "n - i" arbitrary: i d)
  case 0
  then show ?case by simp
next
  case (Suc m)
  from Suc.prems(2) [of i] Suc.prems(1) obtain rid where rid: "server i = Resolved rid" by auto
  let ?req = "Post (PostUploadChunked (chunkForm f cid c n i d))"
  show ?case
  proof (cases "i = n - 1")
    case True
    then have n: "i + 1 = n" "0 < n" using Suc.prems(1) by simp_all
    have "fst (upload_chunks server f cid c n i d) =
          [?req] @ [SetStatus \<lparr> progress = 100, status = uploading,
                               message = Some (''Chunk '' @ js_String n @ '' uploaded'') \<rparr>,
                    SetStatus \<lparr> progress = 100, status = assembling,
                               message = Some ''Assembling and processing...'' \<rparr>]"
      using Suc.prems(1) rid True
      by (simp add: upload_chunks_step upload_chunks_stop n round_percent_full)
    moreover have "length (requests [?req]) = n - i" using n by simp
    ultimately show ?thesis by blast
  next
    case False
    with Suc.prems(1) have lt: "Suc i < n" by simp
    from Suc.hyps(2) have m: "m = n - Suc i" by simp
    from Suc.hyps(1) [OF m lt, of "or_else rid d"] Suc.prems(2)
    obtain pre where pre:
      "fst (upload_chunks server f cid c n (Suc i) (or_else rid d)) =
         pre @ [SetStatus \<lparr> progress = 100, status = uploading,
                             message = Some (''Chunk '' @ js_String n @ '' uploaded'') \<rparr>,
                SetStatus \<lparr> progress = 100, status = assembling,
                             message = Some ''Assembling and processing...'' \<rparr>]"
      and len: "length (requests pre) = n - Suc i"
      by (metis Suc_leD)
    let ?st = "SetStatus \<lparr> progress = round_percent (i + 1) n, status = uploading,
                            message = Some (''Chunk '' @ js_String (i + 1) @ '' uploaded'') \<rparr>"
    have "fst (upload_chunks server f cid c n i d) =
          (?req # ?st # pre) @
             [SetStatus \<lparr> progress = 100, status = uploading,
                          message = Some (''Chunk '' @ js_String n @ '' uploaded'') \<rparr>,
              SetStatus \<lparr> progress = 100, status = assembling,
                          message = Some ''Assembling and processing...'' \<rparr>]"
      using Suc.prems(1) rid False pre by (simp add: upload_chunks_step)
    moreover have "length (requests (?req # ?st # pre)) = n - i"
      using len lt by simp
    ultimately show ?thesis by blast
  qed
qed

section \<open>The lifecycle after the last chunk\<close>

text \<open>
  Claim C1 says that after the last chunk of a chunked upload has succeeded the state is
  \<open>assembling\<close> and becomes \<open>completed\<close> only when a completion event with the
  upload's document identifier arrives. In the upload of the 12 MiB file to a server that
  accepts every chunk, with no message on the socket at all, the loop writes \<open>assembling\<close>
  (line 96), the loop is left, and line 104 writes \<open>completed\<close> at once. And when the
  event for another document, \<open>B\<close>, arrives after the first chunk of that upload, the
  handler sets \<open>completed\<close> while two chunks are still to be sent.
\<close>

theorem last_chunk_success_completes:
  "server_ok 0 = Resolved (Some ''doc-1'') \<and> server_ok 1 = Resolved (Some ''doc-1'')
   \<and> server_ok 2 = Resolved (Some ''doc-1'')
   \<and> map status (status_writes (handleUpload server_ok state_12MiB)) =
       [uploading, uploading, uploading, uploading, assembling, completed]
   \<and> the_status (run_effects state_12MiB (handleUpload server_ok state_12MiB)) =
       \<lparr> progress = 100, status = completed, message = Some ''Upload complete!'' \<rparr>
   \<and> ws_document_id event_B = Some ''B''
   \<and> the_status (run_effects state_12MiB (take 3 (handleUpload server_ok state_12MiB))) =
       \<lparr> progress = 33, status = uploading, message = Some ''Chunk 1 uploaded'' \<rparr>
   \<and> the_status (onmessage (Some event_B)
         (run_effects state_12MiB (take 3 (handleUpload server_ok state_12MiB)))) =
       \<lparr> progress = 33, status = completed, message = Some ''Processing complete!'' \<rparr>"
  by (simp add: trace_ok_12MiB run_effects_def server_ok_def onmessage_def event_B_def)

text \<open>
  Claim C1, as the code has it. In every chunked upload whose chunks are all accepted, the
  success of the last chunk writes the progress 100 and then the status \<open>assembling\<close>,
  after all \<open>n\<close> requests and with no request after it. A completion event sets the
  status to \<open>completed\<close> and the message to \<open>Processing complete!\<close> in every state and
  whatever document identifier it carries.
\<close>

theorem last_chunk_success_assembling:
  assumes "the_file s = Some f" and "CHUNK_SIZE < size_bytes f"
    and "\<forall>k<ceil_div (size_bytes f) CHUNK_SIZE. \<exists>rid. server k = Resolved rid"
  shows "(\<exists>pre post.
            handleUpload server s =
              pre @ [SetStatus \<lparr> progress = 100, status = uploading,
                       message = Some (''Chunk '' @
                         js_String (ceil_div (size_bytes f) CHUNK_SIZE) @ '' uploaded'') \<rparr>,
                     SetStatus \<lparr> progress = 100, status = assembling,
                       message = Some ''Assembling and processing...'' \<rparr>] @ post
          \<and> length (requests pre) = ceil_div (size_bytes f) CHUNK_SIZE
          \<and> requests post = [])
         \<and> (\<forall>d s'. event d = Some ''processing_complete'' \<longrightarrow>
               the_status (onmessage (Some d) s') =
                 (the_status s') \<lparr> status := completed, message := Some ''Processing complete!'' \<rparr>)"
proof -
  let ?n = "ceil_div (size_bytes f) CHUNK_SIZE"
  let ?loop = "upload_chunks server f (clientId s) CHUNK_SIZE ?n 0 ''''"
  have "1 < ?n" by (rule chunked_count_gt1 [OF CHUNK_SIZE_pos assms(2)])
  then have "0 < ?n" by simp
  from loop_all_resolved_end [OF this, of server f "clientId s" CHUNK_SIZE "''''"] assms(3)
  obtain pre where pre:
    "fst ?loop =
       pre @ [SetStatus \<lparr> progress = 100, status = uploading,
                message = Some (''Chunk '' @ js_String ?n @ '' uploaded'') \<rparr>,
              SetStatus \<lparr> progress = 100, status = assembling,
                message = Some ''Assembling and processing...'' \<rparr>]"
    and len: "length (requests pre) = ?n"
    by auto
  let ?pre = "SetStatus \<lparr> progress = 0, status = uploading, message = None \<rparr> # pre"
  let ?post = "[SetUploadedDocId (Some (snd ?loop)),
                SetStatus \<lparr> progress = 100, status = completed,
                            message = Some ''Upload complete!'' \<rparr>]"
  have "handleUpload server s =
          ?pre @ [SetStatus \<lparr> progress = 100, status = uploading,
                    message = Some (''Chunk '' @ js_String ?n @ '' uploaded'') \<rparr>,
                  SetStatus \<lparr> progress = 100, status = assembling,
                    message = Some ''Assembling and processing...'' \<rparr>] @ ?post"
    unfolding handleUpload_chunked [OF assms(1,2)] pre by simp
  moreover have "length (requests ?pre) = ?n" using len by simp
  moreover have "requests ?post = []" by simp
  ultimately have trace: "\<exists>pre post.
            handleUpload server s =
              pre @ [SetStatus \<lparr> progress = 100, status = uploading,
                       message = Some (''Chunk '' @ js_String ?n @ '' uploaded'') \<rparr>,
                     SetStatus \<lparr> progress = 100, status = assembling,
                       message = Some ''Assembling and processing...'' \<rparr>] @ post
          \<and> length (requests pre) = ?n \<and> requests post = []"
    by blast
  have ev: "\<forall>d s'. event d = Some ''processing_complete'' \<longrightarrow>
               the_status (onmessage (Some d) s') =
                 (the_status s') \<lparr> status := completed, message := Some ''Processing complete!'' \<rparr>"
    by (simp add: onmessage_def)
  from trace ev show ?thesis by (rule conjI)
qed

theorem last_chunk_success_assembling_witness:
  "the_file state_12MiB = Some file_12MiB \<and> CHUNK_SIZE < size_bytes file_12MiB
   \<and> server_ok 0 = Resolved (Some ''doc-1'') \<and> server_ok 1 = Resolved (Some ''doc-1'')
   \<and> server_ok 2 = Resolved (Some ''doc-1'')
   \<and> (\<exists>pre post.
          handleUpload server_ok state_12MiB =
            pre @ [SetStatus \<lparr> progress = 100, status = uploading,
                     message = Some ''Chunk 3 uploaded'' \<rparr>,
                   SetStatus \<lparr> progress = 100, status = assembling,
                     message = Some ''Assembling and processing...'' \<rparr>] @ post
        \<and> length (requests pre) = 3 \<and> requests post = [])
   \<and> event event_B = Some ''processing_complete''
   \<and> the_status (onmessage (Some event_B) state_12MiB) =
       \<lparr> progress = 0, status = completed, message = Some ''Processing complete!'' \<rparr>"
proof -
  have ok: "\<forall>k<ceil_div (size_bytes file_12MiB) CHUNK_SIZE. \<exists>rid. server_ok k = Resolved rid"
    by (simp add: server_ok_def)
  have rs: "server_ok 0 = Resolved (Some ''doc-1'')" "server_ok 1 = Resolved (Some ''doc-1'')"
    "server_ok 2 = Resolved (Some ''doc-1'')"
    by (simp_all add: server_ok_def)
  have ev: "event event_B = Some ''processing_complete''" by (simp add: event_B_def)
  note inst = last_chunk_success_assembling [OF file_12MiB chunked_12MiB ok]
  have a: "\<exists>pre post.
          handleUpload server_ok state_12MiB =
            pre @ [SetStatus \<lparr> progress = 100, status = uploading,
                     message = Some ''Chunk 3 uploaded'' \<rparr>,
                   SetStatus \<lparr> progress = 100, status = assembling,
                     message = Some ''Assembling and processing...'' \<rparr>] @ post
        \<and> length (requests pre) = 3 \<and> requests post = []"
    using inst [THEN conjunct1] unfolding count_12MiB js_String_digits by simp
  have "the_status (onmessage (Some event_B) state_12MiB) =
        (the_status state_12MiB) \<lparr> status := completed, message := Some ''Processing complete!'' \<rparr>"
    by (rule inst [THEN conjunct2, rule_format, OF ev])
  then have b: "the_status (onmessage (Some event_B) state_12MiB) =
       \<lparr> progress = 0, status = completed, message = Some ''Processing complete!'' \<rparr>"
    by (simp add: state_12MiB_eq)
  show ?thesis using file_12MiB chunked_12MiB rs a ev b by blast
qed

text \<open>
  Claim C3. When chunk \<open>k\<close> of a chunked upload fails, no later chunk is sent and the
  final state should be \<open>error\<close> with the progress of \<open>k\<close> completed chunks. The run
  below is the upload of the 12 MiB file (three chunks) to a server that rejects chunk 1.
  Chunks 0 and 1 are the only ones sent. The \<open>catch\<close> branch writes \<open>error\<close> with the
  progress \<open>round(100 * (k + 1) / 3) = 67\<close>, that of two chunks where one was completed
  (33), and after the \<open>break\<close> line 104 overwrites it: the final state is \<open>completed\<close>
  with progress 100.
\<close>

theorem chunk_failure_run:
  "map chunk_index (chunk_forms (requests (handleUpload server_rejects_1 state_12MiB))) =
     [''0'', ''1'']
   \<and> status_writes (handleUpload server_rejects_1 state_12MiB) =
     [\<lparr> progress = 0, status = uploading, message = None \<rparr>,
      \<lparr> progress = 33, status = uploading, message = Some ''Chunk 1 uploaded'' \<rparr>,
      \<lparr> progress = 67, status = error, message = Some ''Chunk upload failed.'' \<rparr>,
      \<lparr> progress = 100, status = completed, message = Some ''Upload complete!'' \<rparr>]
   \<and> the_status (run_effects state_12MiB (handleUpload server_rejects_1 state_12MiB)) =
     \<lparr> progress = 100, status = completed, message = Some ''Upload complete!'' \<rparr>"
  by (simp add: trace_rejects_1_12MiB run_effects_def)


section \<open>A file that fits in one chunk\<close>

text \<open>
  Claim C4 says that a file of at most \<open>CHUNK_SIZE\<close> bytes reaches \<open>completed\<close> without
  ever being in the transferring state. For the 3 MiB file the first status written is
  \<open>uploading\<close> (line 56, before the size is looked at), and it is the state while the
  request is in flight.
\<close>

theorem small_upload_visits_uploading:
  "size_bytes file_3MiB \<le> CHUNK_SIZE
   \<and> server_ok 0 = Resolved (Some ''doc-1'')
   \<and> map status (status_writes (handleUpload server_ok state_3MiB)) = [uploading, completed]
   \<and> status (the_status (run_effects state_3MiB (take 2 (handleUpload server_ok state_3MiB)))) =
       uploading"
  using whole_3MiB by (simp add: trace_ok_3MiB run_effects_def server_ok_def)


text \<open>
  Claim C4, as the code has it. For every file of at most \<open>CHUNK_SIZE\<close> bytes and every
  server that accepts the request, \<open>handleUpload\<close> sends exactly one request, the
  whole-file one, carrying the file and the client identifier; the statuses written are
  \<open>uploading\<close> (progress 0) and then \<open>completed\<close> (progress 100), never \<open>assembling\<close>;
  the final state is \<open>completed\<close> with progress 100 and the identifier the server returned
  is stored.
\<close>

theorem small_upload:
  assumes "the_file s = Some f" and "size_bytes f \<le> CHUNK_SIZE" and "server 0 = Resolved rid"
  shows "handleUpload server s =
           [SetStatus \<lparr> progress = 0, status = uploading, message = None \<rparr>,
            Post (PostUpload f (clientId s)),
            SetStatus \<lparr> progress = 100, status = completed,
                        message = Some ''Upload complete!'' \<rparr>,
            SetUploadedDocId rid]
         \<and> requests (handleUpload server s) = [PostUpload f (clientId s)]
         \<and> map status (status_writes (handleUpload server s)) = [uploading, completed]
         \<and> assembling \<notin> set (map status (status_writes (handleUpload server s)))
         \<and> the_status (run_effects s (handleUpload server s)) =
             \<lparr> progress = 100, status = completed, message = Some ''Upload complete!'' \<rparr>
         \<and> uploadedDocId (run_effects s (handleUpload server s)) = rid"
  using assms by (simp add: handleUpload_def run_effects_def)

theorem small_upload_witness:
  "the_file state_3MiB = Some file_3MiB \<and> size_bytes file_3MiB \<le> CHUNK_SIZE
   \<and> server_ok 0 = Resolved (Some ''doc-1'')
   \<and> requests (handleUpload server_ok state_3MiB) = [PostUpload file_3MiB ''client-1'']
   \<and> map status (status_writes (handleUpload server_ok state_3MiB)) = [uploading, completed]
   \<and> the_status (run_effects state_3MiB (handleUpload server_ok state_3MiB)) =
       \<lparr> progress = 100, status = completed, message = Some ''Upload complete!'' \<rparr>"
proof -
  have f: "the_file state_3MiB = Some file_3MiB" by (simp add: state_3MiB_eq)
  have c: "clientId state_3MiB = ''client-1''" by (simp add: state_3MiB_eq)
  have r: "server_ok 0 = Resolved (Some ''doc-1'')" by (simp add: server_ok_def)
  from small_upload [of state_3MiB file_3MiB server_ok "Some ''doc-1''", OF f whole_3MiB r]
  show ?thesis unfolding c using f r whole_3MiB by blast
qed


section \<open>No file\<close>

text \<open>
  Claim C9 says that without a file the selection and the start of the upload fail with
  an error instead of doing nothing. On the component as mounted both do nothing:
  \<open>handleFileChange\<close> returns the state it was given, \<open>handleUpload\<close> performs no effect,
  and the status stays \<open>idle\<close>.
\<close>

theorem no_file_is_ignored:
  "handleFileChange None initial_state = initial_state
   \<and> the_file initial_state = None
   \<and> handleUpload server_ok initial_state = []
   \<and> run_effects initial_state (handleUpload server_ok initial_state) = initial_state
   \<and> status (the_status initial_state) = idle"
  by (simp add: handleFileChange_def handleUpload_def run_effects_def initial_state_def)


text \<open>
  Claim C9, as the code has it. Without a file \<open>handleFileChange\<close> leaves every state
  unchanged, and when no file is selected \<open>handleUpload\<close> performs no effect: no request
  is sent, no status is written, no error is recorded.
\<close>

theorem no_file_no_effect:
  "handleFileChange None s = s
   \<and> (the_file s = None \<longrightarrow>
        handleUpload server s = [] \<and> run_effects s (handleUpload server s) = s)"
  by (simp add: handleFileChange_def handleUpload_def run_effects_def)

theorem no_file_no_effect_witness:
  "the_file initial_state = None
   \<and> handleFileChange None initial_state = initial_state
   \<and> handleUpload server_ok initial_state = []
   \<and> run_effects initial_state (handleUpload server_ok initial_state) = initial_state"
proof -
  have "the_file initial_state = None" by (simp add: initial_state_def)
  with no_file_no_effect [of initial_state server_ok] show ?thesis
    by (simp add: run_effects_def)
qed


section \<open>Completion events\<close>

text \<open>
  Claim C2 says that a completion event whose document identifier is not that of the
  current upload is discarded and changes nothing. The handler never reads the
  identifier. A file has just been selected (status \<open>idle\<close>, no identifier): the event for
  document \<open>B\<close> sets the status to \<open>completed\<close>. An upload has finished with the identifier
  \<open>doc-1\<close>: the event for \<open>B\<close> replaces its message.
\<close>

theorem stale_event_completes:
  "uploadedDocId state_12MiB = None \<and> ws_document_id event_B = Some ''B''
   \<and> the_status state_12MiB = \<lparr> progress = 0, status = idle, message = None \<rparr>
   \<and> the_status (onmessage (Some event_B) state_12MiB) =
       \<lparr> progress = 0, status = completed, message = Some ''Processing complete!'' \<rparr>
   \<and> uploadedDocId state_uploaded = Some ''doc-1''
   \<and> message (the_status state_uploaded) = Some ''Upload complete!''
   \<and> message (the_status (onmessage (Some event_B) state_uploaded)) =
       Some ''Processing complete!''"
  by (simp add: onmessage_def event_B_def state_12MiB_eq state_uploaded_eq)


text \<open>
  Claim C2, as the code has it. Every message whose \<open>event\<close> field is
  \<open>processing_complete\<close> sets the status to \<open>completed\<close> and the message to
  \<open>Processing complete!\<close>, whatever its document identifier, and keeps the progress. Every
  other message, and every message that does not parse, leaves the whole state unchanged.
\<close>

theorem onmessage_effect:
  "(event d = Some ''processing_complete'' \<longrightarrow>
      the_status (onmessage (Some d) s) =
        \<lparr> progress = progress (the_status s), status = completed,
          message = Some ''Processing complete!'' \<rparr>)
   \<and> (event d \<noteq> Some ''processing_complete'' \<longrightarrow> onmessage (Some d) s = s)
   \<and> onmessage None s = s"
  by (simp add: onmessage_def)

theorem onmessage_effect_witness:
  "event event_B = Some ''processing_complete''
   \<and> the_status (onmessage (Some event_B) state_uploaded) =
       \<lparr> progress = 100, status = completed, message = Some ''Processing complete!'' \<rparr>
   \<and> event (event_B \<lparr> event := Some ''ping'' \<rparr>) \<noteq> Some ''processing_complete''
   \<and> onmessage (Some (event_B \<lparr> event := Some ''ping'' \<rparr>)) state_uploaded = state_uploaded"
proof -
  have e: "event event_B = Some ''processing_complete''" by (simp add: event_B_def)
  have p: "event (event_B \<lparr> event := Some ''ping'' \<rparr>) \<noteq> Some ''processing_complete''" by simp
  from onmessage_effect [of event_B state_uploaded]
       onmessage_effect [of "event_B \<lparr> event := Some ''ping'' \<rparr>" state_uploaded] e p
  show ?thesis by (simp add: state_uploaded_eq)
qed


section \<open>The 12 MiB scenario\<close>

text \<open>
  Claim C5 gives 34, 67, 100 as the progress after the three chunks of a 12 MiB file.
  \<open>Math.round((1 / 3) * 100)\<close> is 33: the values written are 33, 67, 100.
\<close>

theorem first_progress_is_33:
  "size_bytes file_12MiB = 12 * 1024 * 1024
   \<and> map progress (take 3 (tl (status_writes (handleUpload server_ok state_12MiB)))) =
       [33, 67, 100]
   \<and> progress (status_writes (handleUpload server_ok state_12MiB) ! 1) \<noteq> 34"
  by (simp add: trace_ok_12MiB file_12MiB_def)


text \<open>
  Claim C5, as the code has it. A file of 12 MiB whose three chunk requests succeed is
  sent as the ranges \<open>[0, 5 MiB)\<close>, \<open>[5 MiB, 10 MiB)\<close>, \<open>[10 MiB, 12 MiB)\<close>; the
  progress written after the three successes is 33, 67, 100, each with the status
  \<open>uploading\<close>, and the success of the third chunk then writes \<open>assembling\<close> with
  progress 100.
\<close>

theorem upload_12MiB:
  assumes "the_file s = Some f" and "size_bytes f = 12 * 1024 * 1024"
    and "\<forall>k<3. \<exists>rid. server k = Resolved rid"
  shows "map file_chunk (chunk_forms (requests (handleUpload server s))) =
           [(0, 5 * 1024 * 1024), (5 * 1024 * 1024, 10 * 1024 * 1024),
            (10 * 1024 * 1024, 12 * 1024 * 1024)]
         \<and> map (\<lambda>u. (progress u, status u)) (take 5 (status_writes (handleUpload server s))) =
           [(0, uploading), (33, uploading), (67, uploading), (100, uploading),
            (100, assembling)]"
proof -
  from assms(3) [rule_format, of 0] obtain r0 where r0: "server 0 = Resolved r0" by auto
  from assms(3) [rule_format, of 1] obtain r1 where r1: "server 1 = Resolved r1" by auto
  from assms(3) [rule_format, of 2] obtain r2 where r2: "server 2 = Resolved r2" by auto
  have r1': "server (Suc 0) = Resolved r1" using r1 by simp
  have r2': "server (Suc (Suc 0)) = Resolved r2" using r2 by (simp add: numeral_2_eq_2)
  have chunked: "CHUNK_SIZE < size_bytes f" by (simp add: assms(2) CHUNK_SIZE_def)
  have count: "ceil_div (size_bytes f) CHUNK_SIZE = 3"
    by (simp add: ceil_div_def assms(2) CHUNK_SIZE_def)
  show ?thesis
    unfolding handleUpload_chunked [OF assms(1) chunked] count
    by (simp add: upload_chunks_step upload_chunks_stop r0 r1 r1' r2 r2' chunkForm_def
          chunk_range_def round_percent_def CHUNK_SIZE_def assms(2))
qed

theorem upload_12MiB_witness:
  "the_file state_12MiB = Some file_12MiB \<and> size_bytes file_12MiB = 12 * 1024 * 1024
   \<and> server_ok 0 = Resolved (Some ''doc-1'') \<and> server_ok 1 = Resolved (Some ''doc-1'')
   \<and> server_ok 2 = Resolved (Some ''doc-1'')
   \<and> map file_chunk (chunk_forms (requests (handleUpload server_ok state_12MiB))) =
         [(0, 5242880), (5242880, 10485760), (10485760, 12582912)]
   \<and> map (\<lambda>u. (progress u, status u))
         (take 5 (status_writes (handleUpload server_ok state_12MiB))) =
         [(0, uploading), (33, uploading), (67, uploading), (100, uploading),
          (100, assembling)]"
proof -
  have sz: "size_bytes file_12MiB = 12 * 1024 * 1024" by (simp add: file_12MiB_def)
  have ok: "\<forall>k<3. \<exists>rid. server_ok k = Resolved rid" by (simp add: server_ok_def)
  have rs: "server_ok 0 = Resolved (Some ''doc-1'')" "server_ok 1 = Resolved (Some ''doc-1'')"
    "server_ok 2 = Resolved (Some ''doc-1'')"
    by (simp_all add: server_ok_def)
  from upload_12MiB [OF file_12MiB sz ok] file_12MiB sz rs show ?thesis by simp
qed


section \<open>The requests of a chunked upload, in order\<close>

text \<open>
  Claim C6 says that every file larger than \<open>CHUNK_SIZE\<close> is sent in exactly
  \<open>\<lceil>size / CHUNK_SIZE\<rceil>\<close> requests. The 12 MiB file has three chunks; when the server
  rejects the first one, the loop is left and one request has been sent.
\<close>

theorem rejected_first_chunk_stops:
  "the_file state_12MiB = Some file_12MiB \<and> CHUNK_SIZE < size_bytes file_12MiB
   \<and> ceil_div (size_bytes file_12MiB) CHUNK_SIZE = 3
   \<and> length (requests (handleUpload server_rejects_0 state_12MiB)) = 1"
  using file_12MiB chunked_12MiB count_12MiB by (simp add: trace_rejects_0_12MiB)


text \<open>
  Claim C6, as the code has it. For every file larger than \<open>CHUNK_SIZE\<close>, with
  \<open>n = \<lceil>size / CHUNK_SIZE\<rceil>\<close>: every request is a chunk request; at least one and at most
  \<open>n\<close> are sent; exactly \<open>n\<close> when every chunk is accepted, and exactly \<open>k + 1\<close> when
  chunk \<open>k\<close> is the first one rejected; a request is sent only after the one before it has
  been accepted. The first request carries the identifier \<open>new\<close>. The request at position
  \<open>j\<close> carries the range \<open>j\<close> of the split, \<open>String(j)\<close> as the chunk index, \<open>String(n)\<close> as
  the total, the name of the file, and the client identifier exactly when \<open>j = 0\<close>; the
  chunk indices sent are \<open>String(0), String(1), \<dots>\<close> in this order, all different.
\<close>

theorem chunked_upload_requests:
  assumes "the_file s = Some f" and "CHUNK_SIZE < size_bytes f"
  shows "(let n = ceil_div (size_bytes f) CHUNK_SIZE;
              reqs = requests (handleUpload server s);
              forms = chunk_forms reqs
          in int n = \<lceil>real (size_bytes f) / real CHUNK_SIZE\<rceil>
           \<and> reqs = map PostUploadChunked forms
           \<and> 0 < length forms \<and> length forms \<le> n
           \<and> ((\<forall>k<n. \<exists>rid. server k = Resolved rid) \<longrightarrow> length forms = n)
           \<and> (\<forall>k<n. (\<exists>x. server k = Rejected x) \<and> (\<forall>j<k. \<exists>rid. server j = Resolved rid)
                  \<longrightarrow> length forms = Suc k)
           \<and> (\<forall>j. Suc j < length forms \<longrightarrow> (\<exists>rid. server j = Resolved rid))
           \<and> document_id (forms ! 0) = ''new''
           \<and> (\<forall>j<length forms.
                 file_chunk (forms ! j) = split (size_bytes f) CHUNK_SIZE ! j
               \<and> chunk_index (forms ! j) = js_String j
               \<and> total_chunks (forms ! j) = js_String n
               \<and> filename (forms ! j) = name f
               \<and> client_id (forms ! j) = (if j = 0 then Some (clientId s) else None))
           \<and> map chunk_index forms = map js_String [0 ..< length forms]
           \<and> distinct (map chunk_index forms))"
proof -
  let ?n = "ceil_div (size_bytes f) CHUNK_SIZE"
  let ?forms = "loop_forms server f (clientId s) CHUNK_SIZE ?n 0 ''''"
  have forms: "chunk_forms (requests (handleUpload server s)) = ?forms"
    by (rule handleUpload_forms [OF assms])
  have reqs: "requests (handleUpload server s) = map PostUploadChunked ?forms"
    by (rule handleUpload_requests [OF assms])
  have count: "int ?n = \<lceil>real (size_bytes f) / real CHUNK_SIZE\<rceil>"
    by (rule ceil_div_ceiling [OF CHUNK_SIZE_pos])
  have n: "1 < ?n" by (rule chunked_count_gt1 [OF CHUNK_SIZE_pos assms(2)])
  then have pos: "0 < length ?forms" by (intro loop_forms_nonempty) simp
  have le: "length ?forms \<le> ?n" using loop_forms_length_le [of server f _ _ ?n 0] by simp
  have full: "length ?forms = ?n" if "\<forall>k<?n. \<exists>rid. server k = Resolved rid"
    using loop_forms_all_resolved [of 0 ?n server f "clientId s" CHUNK_SIZE "''''"] that by simp
  have part: "length ?forms = Suc k"
    if "k < ?n" "\<exists>x. server k = Rejected x" "\<forall>j<k. \<exists>rid. server j = Resolved rid" for k
  proof -
    from that(2) obtain x where "server k = Rejected x" ..
    from loop_forms_first_rejected [of 0 k ?n server x f "clientId s" CHUNK_SIZE "''''",
        OF _ that(1) this] that(3)
    show ?thesis by simp
  qed
  have seq: "\<exists>rid. server j = Resolved rid" if "Suc j < length ?forms" for j
    using loop_forms_sequential [OF that] by simp
  have nth: "?forms ! j = chunkForm f (clientId s) CHUNK_SIZE ?n j (latest_id server 0 j '''')"
    if "j < length ?forms" for j
    using loop_forms_nth [OF that] by simp
  have first: "document_id (?forms ! 0) = ''new''"
    by (simp add: nth [OF pos] latest_id_same chunkForm_def or_else_def)
  have fields: "file_chunk (?forms ! j) = split (size_bytes f) CHUNK_SIZE ! j
      \<and> chunk_index (?forms ! j) = js_String j
      \<and> total_chunks (?forms ! j) = js_String ?n
      \<and> filename (?forms ! j) = name f
      \<and> client_id (?forms ! j) = (if j = 0 then Some (clientId s) else None)"
    if "j < length ?forms" for j
  proof -
    from that le have "j < ?n" by simp
    then show ?thesis by (simp add: nth [OF that] chunkForm_def split_def)
  qed
  have idx: "map chunk_index ?forms = map js_String [0 ..< length ?forms]"
    by (rule nth_equalityI) (simp_all add: fields)
  have "inj_on js_String (set [0 ..< length ?forms])"
    by (rule inj_onI) (rule js_String_inj)
  then have dist: "distinct (map chunk_index ?forms)"
    unfolding idx by (simp add: distinct_map)
  show ?thesis
    unfolding Let_def forms
    using count reqs pos le full part seq first fields idx dist by (intro conjI) blast+
qed

theorem chunked_upload_requests_witness:
  "the_file state_12MiB = Some file_12MiB \<and> CHUNK_SIZE < size_bytes file_12MiB
   \<and> server_ok 0 = Resolved (Some ''doc-1'') \<and> server_ok 1 = Resolved (Some ''doc-1'')
   \<and> server_ok 2 = Resolved (Some ''doc-1'')
   \<and> length (chunk_forms (requests (handleUpload server_ok state_12MiB))) = 3
   \<and> server_rejects_1 0 = Resolved (Some ''doc-1'') \<and> server_rejects_1 1 = Rejected None
   \<and> length (chunk_forms (requests (handleUpload server_rejects_1 state_12MiB))) = 2"
proof -
  have ok: "\<forall>k<3. \<exists>rid. server_ok k = Resolved rid" by (simp add: server_ok_def)
  have rej: "(\<exists>x. server_rejects_1 1 = Rejected x) \<and> (\<forall>j<1. \<exists>rid. server_rejects_1 j = Resolved rid)"
    by (simp add: server_rejects_1_def)
  note all = chunked_upload_requests [OF file_12MiB chunked_12MiB, of server_ok,
      unfolded Let_def count_12MiB]
  note one = chunked_upload_requests [OF file_12MiB chunked_12MiB, of server_rejects_1,
      unfolded Let_def count_12MiB]
  have a: "length (chunk_forms (requests (handleUpload server_ok state_12MiB))) = 3"
    by (rule all [THEN conjunct2, THEN conjunct2, THEN conjunct2, THEN conjunct2,
          THEN conjunct1, THEN mp, OF ok])
  have "length (chunk_forms (requests (handleUpload server_rejects_1 state_12MiB))) = Suc 1"
    by (rule one [THEN conjunct2, THEN conjunct2, THEN conjunct2, THEN conjunct2,
          THEN conjunct2, THEN conjunct1, rule_format, of 1, OF _ rej]) simp
  then have b: "length (chunk_forms (requests (handleUpload server_rejects_1 state_12MiB))) = 2"
    by simp
  have rs: "server_ok 0 = Resolved (Some ''doc-1'')" "server_ok 1 = Resolved (Some ''doc-1'')"
    "server_ok 2 = Resolved (Some ''doc-1'')"
    "server_rejects_1 0 = Resolved (Some ''doc-1'')" "server_rejects_1 1 = Rejected None"
    by (simp_all add: server_ok_def server_rejects_1_def)
  show ?thesis using file_12MiB chunked_12MiB a b rs by simp
qed


section \<open>The document identifier\<close>

text \<open>
  Claim C8 says that an identifier returned by the server is adopted only while none is
  stored, so that every later request carries the first one returned. When the server
  answers chunk 0 with \<open>A\<close> and chunk 1 with \<open>B\<close>, the third request carries \<open>B\<close>.
\<close>

theorem later_identifier_replaces_first:
  "server_two_ids 0 = Resolved (Some ''A'') \<and> server_two_ids 1 = Resolved (Some ''B'')
   \<and> map document_id (chunk_forms (requests (handleUpload server_two_ids state_12MiB))) =
       [''new'', ''A'', ''B'']"
  by (simp add: trace_two_ids_12MiB server_two_ids_def)


text \<open>
  Claim C8, as the code has it. In a chunked upload the request at position \<open>j\<close> carries
  the last non-empty identifier among the responses to the chunks before \<open>j\<close>, and \<open>new\<close>
  when there is none. Step by step: after a response with a non-empty identifier the next
  request carries that identifier, whether or not one was stored before; after a response
  with no identifier or an empty one it carries what the request before it carried.
\<close>

theorem document_id_sent:
  assumes "the_file s = Some f" and "CHUNK_SIZE < size_bytes f"
  shows "(let forms = chunk_forms (requests (handleUpload server s))
          in (\<forall>j<length forms.
                document_id (forms ! j) =
                  (if returned_ids server 0 j = [] then ''new''
                   else last (returned_ids server 0 j)))
           \<and> (\<forall>j. Suc j < length forms \<longrightarrow>
                document_id (forms ! Suc j) =
                  (case server j of
                     Resolved (Some x) \<Rightarrow> if x = [] then document_id (forms ! j) else x
                   | _ \<Rightarrow> document_id (forms ! j))))"
proof -
  let ?n = "ceil_div (size_bytes f) CHUNK_SIZE"
  let ?forms = "loop_forms server f (clientId s) CHUNK_SIZE ?n 0 ''''"
  have forms: "chunk_forms (requests (handleUpload server s)) = ?forms"
    by (rule handleUpload_forms [OF assms])
  have closed: "document_id (?forms ! j) =
      (if returned_ids server 0 j = [] then ''new'' else last (returned_ids server 0 j))"
    if "j < length ?forms" for j
    using loop_forms_nth [OF that] by (simp add: document_id_latest)
  have step: "document_id (?forms ! Suc j) =
      (case server j of
         Resolved (Some x) \<Rightarrow> if x = [] then document_id (?forms ! j) else x
       | _ \<Rightarrow> document_id (?forms ! j))"
    if "Suc j < length ?forms" for j
  proof -
    from that have j: "j < length ?forms" by simp
    show ?thesis
      unfolding closed [OF that] closed [OF j] returned_ids_snoc
      by (simp add: returned_id_def split: Response.split option.split)
  qed
  show ?thesis unfolding Let_def forms using closed step by blast
qed

theorem document_id_sent_witness:
  "the_file state_12MiB = Some file_12MiB \<and> CHUNK_SIZE < size_bytes file_12MiB
   \<and> length (chunk_forms (requests (handleUpload server_two_ids state_12MiB))) = 3
   \<and> returned_ids server_two_ids 0 2 = [''A'', ''B'']
   \<and> document_id (chunk_forms (requests (handleUpload server_two_ids state_12MiB)) ! 2) = ''B''
   \<and> server_two_ids 1 = Resolved (Some ''B'')"
proof -
  have len: "length (chunk_forms (requests (handleUpload server_two_ids state_12MiB))) = 3"
    by (simp add: trace_two_ids_12MiB)
  have ids: "returned_ids server_two_ids 0 2 = [''A'', ''B'']"
    by (simp add: returned_ids_def returned_id_def server_two_ids_def upt_conv_Cons numeral_2_eq_2)
  from document_id_sent [OF file_12MiB chunked_12MiB, of server_two_ids]
  have "document_id (chunk_forms (requests (handleUpload server_two_ids state_12MiB)) ! 2) =
        (if returned_ids server_two_ids 0 2 = [] then ''new''
         else last (returned_ids server_two_ids 0 2))"
    unfolding Let_def len by simp
  then show ?thesis using file_12MiB chunked_12MiB len ids
    by (simp add: server_two_ids_def)
qed


lemma trace_new_12MiB:
  "handleUpload server_new state_12MiB =
     [SetStatus \<lparr> progress = 0, status = uploading, message = None \<rparr>,
      Post (PostUploadChunked \<lparr> file_chunk = (0, 5242880), document_id = ''new'',
              chunk_index = ''0'', total_chunks = ''3'', filename = ''report.pdf'',
              client_id = Some ''client-1'' \<rparr>),
      SetStatus \<lparr> progress = 33, status = uploading, message = Some ''Chunk 1 uploaded'' \<rparr>,
      Post (PostUploadChunked \<lparr> file_chunk = (5242880, 10485760), document_id = ''new'',
              chunk_index = ''1'', total_chunks = ''3'', filename = ''report.pdf'',
              client_id = None \<rparr>),
      SetStatus \<lparr> progress = 67, status = uploading, message = Some ''Chunk 2 uploaded'' \<rparr>,
      Post (PostUploadChunked \<lparr> file_chunk = (10485760, 12582912), document_id = ''new'',
              chunk_index = ''2'', total_chunks = ''3'', filename = ''report.pdf'',
              client_id = None \<rparr>),
      SetStatus \<lparr> progress = 100, status = uploading, message = Some ''Chunk 3 uploaded'' \<rparr>,
      SetStatus \<lparr> progress = 100, status = assembling,
                  message = Some ''Assembling and processing...'' \<rparr>,
      SetUploadedDocId (Some ''new''),
      SetStatus \<lparr> progress = 100, status = completed, message = Some ''Upload complete!'' \<rparr>]"
  unfolding handleUpload_chunked [OF file_12MiB chunked_12MiB] count_12MiB clientId_12MiB
  by (simp add: eval_loop server_new_def)

text \<open>
  Claim C10 says that once a response has supplied a non-empty identifier, no later
  request carries \<open>new\<close> again. The identifier is sent as the server gave it, so when the
  server's identifier is the string \<open>new\<close> itself, supplied with the response to chunk 0,
  the requests for chunks 1 and 2 carry \<open>new\<close>.
\<close>

theorem server_supplied_new_is_sent:
  "server_new 0 = Resolved (Some ''new'') \<and> ''new'' \<noteq> ([] :: string)
   \<and> length (chunk_forms (requests (handleUpload server_new state_12MiB))) = 3
   \<and> document_id (chunk_forms (requests (handleUpload server_new state_12MiB)) ! 1) = ''new''
   \<and> document_id (chunk_forms (requests (handleUpload server_new state_12MiB)) ! 2) = ''new''"
  by (simp add: trace_new_12MiB server_new_def)

text \<open>
  Claim C10, as the code has it. In a chunked upload, once the response to some chunk \<open>i\<close>
  has supplied a non-empty identifier, the stored identifier is never unassigned again:
  every later request \<open>j\<close> carries the last non-empty identifier supplied by a response
  before it, which is not empty and is the identifier of some earlier response; it reads
  \<open>new\<close> only when the server itself supplied the string \<open>new\<close> as an identifier. The
  identifier stored at the end of the upload is again a non-empty one supplied by a
  response. Later responses without an identifier do not change this.
\<close>

theorem identifier_never_cleared:
  assumes "the_file s = Some f" and "CHUNK_SIZE < size_bytes f"
    and "i < j" and "j < length (chunk_forms (requests (handleUpload server s)))"
    and "server i = Resolved (Some d)" and "d \<noteq> []"
  shows "(let sent = document_id (chunk_forms (requests (handleUpload server s)) ! j)
          in sent \<noteq> [] \<and> (\<exists>m<j. server m = Resolved (Some sent))
           \<and> returned_ids server 0 j \<noteq> [] \<and> sent = last (returned_ids server 0 j)
           \<and> (sent = ''new'' \<longrightarrow> (\<exists>m<j. server m = Resolved (Some ''new''))))
         \<and> (\<exists>x. uploadedDocId (run_effects s (handleUpload server s)) = Some x \<and> x \<noteq> []
                \<and> (\<exists>m. server m = Resolved (Some x)))"
proof -
  let ?n = "ceil_div (size_bytes f) CHUNK_SIZE"
  let ?forms = "loop_forms server f (clientId s) CHUNK_SIZE ?n 0 ''''"
  have forms: "chunk_forms (requests (handleUpload server s)) = ?forms"
    by (rule handleUpload_forms [OF assms(1,2)])
  have j: "j < length ?forms" using assms(4) by (simp only: forms)
  have supplied: "d \<in> set (returned_ids server 0 k)" if "i < k" for k
    using assms(5,6) that by (auto simp: returned_ids_member)
  have latest: "latest_id server 0 k '''' \<in> set (returned_ids server 0 k)" if "i < k" for k
    using supplied [OF that] by (intro latest_id_member) auto
  have some: "returned_ids server 0 j \<noteq> []"
    using supplied [OF assms(3)] by auto
  have sent: "document_id (?forms ! j) = latest_id server 0 j ''''"
  proof -
    from latest [OF assms(3)] have "latest_id server 0 j '''' \<noteq> []"
      by (rule returned_ids_nonempty)
    then show ?thesis using loop_forms_nth [OF j] by (simp add: chunkForm_def or_else_def)
  qed
  have lst: "document_id (?forms ! j) = last (returned_ids server 0 j)"
    unfolding sent using some by (simp add: latest_id_def)
  from latest [OF assms(3)]
  have a: "document_id (?forms ! j) \<noteq> []"
    and b: "\<exists>m<j. server m = Resolved (Some (document_id (?forms ! j)))"
    unfolding sent by (auto simp: returned_ids_member)
  from b have c: "document_id (?forms ! j) = ''new'' \<longrightarrow> (\<exists>m<j. server m = Resolved (Some ''new''))"
    by auto
  have "i < 0 + length ?forms" using assms(3) j by simp
  from latest [OF this]
  have e: "\<exists>x. uploadedDocId (run_effects s (handleUpload server s)) = Some x \<and> x \<noteq> []
             \<and> (\<exists>m. server m = Resolved (Some x))"
    unfolding handleUpload_uploadedDocId [OF assms(1,2)] loop_documentId
    by (auto simp: returned_ids_member)
  show ?thesis unfolding Let_def forms using a b some lst c e by blast
qed

theorem identifier_never_cleared_witness:
  "the_file state_12MiB = Some file_12MiB \<and> CHUNK_SIZE < size_bytes file_12MiB
   \<and> (0::nat) < 2 \<and> 2 < length (chunk_forms (requests (handleUpload server_two_ids state_12MiB)))
   \<and> server_two_ids 0 = Resolved (Some ''A'') \<and> ''A'' \<noteq> ([] :: string)
   \<and> server_two_ids 1 = Resolved (Some ''B'')
   \<and> server_two_ids 2 = Resolved None
   \<and> returned_ids server_two_ids 0 2 = [''A'', ''B'']
   \<and> document_id (chunk_forms (requests (handleUpload server_two_ids state_12MiB)) ! 2) = ''B''
   \<and> uploadedDocId (run_effects state_12MiB (handleUpload server_two_ids state_12MiB)) \<noteq> Some []"
proof -
  have len: "2 < length (chunk_forms (requests (handleUpload server_two_ids state_12MiB)))"
    by (simp add: trace_two_ids_12MiB)
  have r0: "server_two_ids 0 = Resolved (Some ''A'')" and r2: "server_two_ids 2 = Resolved None"
    and r1: "server_two_ids 1 = Resolved (Some ''B'')"
    by (simp_all add: server_two_ids_def)
  have ne: "''A'' \<noteq> ([] :: string)" by simp
  have ids: "returned_ids server_two_ids 0 2 = [''A'', ''B'']"
    by (simp add: returned_ids_def returned_id_def server_two_ids_def upt_conv_Cons numeral_2_eq_2)
  have lt: "(0::nat) < 2" by simp
  note inst = identifier_never_cleared [OF file_12MiB chunked_12MiB lt len r0 ne,
      unfolded Let_def ids]
  from inst
  have sent: "document_id (chunk_forms (requests (handleUpload server_two_ids state_12MiB)) ! 2)
              = ''B''"
    and fin: "\<exists>x. uploadedDocId (run_effects state_12MiB (handleUpload server_two_ids state_12MiB))
                  = Some x \<and> x \<noteq> []"
    by auto
  from fin have "uploadedDocId (run_effects state_12MiB (handleUpload server_two_ids state_12MiB))
                 \<noteq> Some []" by auto
  then show ?thesis using file_12MiB chunked_12MiB lt len r0 r1 r2 ne ids sent by blast
qed

end
